theory Spec2Isabelle
  imports Complex_Main "HOL-Library.Word" "HOL-Library.AList"
begin

unbundle bit_operations_syntax

section \<open>Keyframe extraction of the moodboard video processor\<close>

text \<open>
  The development embeds \<^verbatim>\<open>modal_video_processor.py\<close> (the Supabase variant) and the
  extraction loop of \<^verbatim>\<open>.archive/scripts/modal_fix.py\<close> (the Convex variant).

  Conventions of the embedding:
  \<^item> A Python float is represented by the rational number it denotes (\<open>rat\<close>); the
    inputs are values of doubles. The difference and the product that decide whether
    a scene is visited at all, in the duration filter and in the frame count, are
    rounded to binary64 as Python rounds them (\<open>double\<close>). The other float
    computations, the sample times and the frame numbers, are taken exactly. NaN,
    infinities and overflow are not modelled.
  \<^item> An exception is a value: \<open>Inl\<close> of a sum type. Exceptions raised inside
    OpenCV, numpy or imagehash carry their message (a string), because
    \<^verbatim>\<open>is_bad_frame\<close> formats it into its reason; exceptions raised by Python itself
    are the constructors of \<open>py_error\<close>.
  \<^item> OpenCV, numpy, imagehash and scenedetect are outside the repository. A frame is
    therefore represented by what those libraries report on its JPEG file, with one
    field per library call of the source, each of which may raise.
  \<^item> The frames directory is a map from paths to file contents; a path is
    represented by the pieces the source formats into its name. Writing a frame with
    \<^verbatim>\<open>cv2.imwrite\<close> is taken to succeed, and \<^verbatim>\<open>os.rename\<close> replaces its target.
\<close>

subsection \<open>Python values\<close>

datatype py_error = ZeroDivisionError | ValueError | KeyError | FileNotFoundError

type_synonym 'a raising = "string + 'a"

text \<open>\<^verbatim>\<open>int(x)\<close> on a float truncates toward zero.\<close>

definition py_int :: "rat \<Rightarrow> int" where
  "py_int x = (if 0 \<le> x then \<lfloor>x\<rfloor> else \<lceil>x\<rceil>)"

text \<open>
  Rounding to the nearest binary64 number, ties to even: a significand of 53 bits, and
  the fixed exponent of the subnormal numbers below \<open>2 ^ -1022\<close>. The number of
  binary digits of a positive integer is its \<open>bit_length\<close>, and for a positive \<open>q\<close>,
  \<open>floor_log2 q\<close> is the \<open>k\<close> with \<open>2 ^ k \<le> q < 2 ^ (k + 1)\<close>.
\<close>

definition pow2 :: "int \<Rightarrow> rat" where
  "pow2 k = (if 0 \<le> k then 2 ^ nat k else 1 / 2 ^ nat (- k))"

function bit_length :: "int \<Rightarrow> int" where
  "bit_length a = (if a \<le> 0 then 0 else 1 + bit_length (a div 2))"
  by pat_completeness auto
termination
  by (relation "measure nat") auto

definition floor_log2 :: "rat \<Rightarrow> int" where
  "floor_log2 q =
     (let (a, b) = quotient_of q;
          k = bit_length a - bit_length b
      in if pow2 k \<le> q then k else k - 1)"

definition round_half_even :: "rat \<Rightarrow> int" where
  "round_half_even x =
     (let f = \<lfloor>x\<rfloor>; r = x - of_int f
      in if r < 1 / 2 then f else if r > 1 / 2 then f + 1
         else if even f then f else f + 1)"

definition double :: "rat \<Rightarrow> rat" where
  "double q =
     (if q = 0 then 0
      else
        (let a = \<bar>q\<bar>;
             e = max (floor_log2 a - 52) (- 1074);
             m = round_half_even (a / pow2 e)
         in sgn q * of_int m * pow2 e))"

text \<open>
  \<^verbatim>\<open>xs[::step]\<close>: every \<open>step\<close>-th element from the front for a positive step, from
  the back for a negative one; a zero step raises ValueError.
\<close>

definition every_nth :: "'a list \<Rightarrow> nat \<Rightarrow> 'a list" where
  "every_nth xs k = map (\<lambda>j. xs ! (j * k)) [0..<(length xs + k - 1) div k]"

definition slice_step :: "'a list \<Rightarrow> int \<Rightarrow> py_error + 'a list" where
  "slice_step xs step =
     (if step = 0 then Inl ValueError
      else if 0 < step then Inr (every_nth xs (nat step))
      else Inr (every_nth (rev xs) (nat (- step))))"

text \<open>A dict with string keys and insertion order, as an association list.\<close>

type_synonym counts = "(string \<times> nat) list"

definition dict_get :: "counts \<Rightarrow> string \<Rightarrow> nat \<Rightarrow> nat" where
  "dict_get d k dflt = (case map_of d k of None \<Rightarrow> dflt | Some v \<Rightarrow> v)"

text \<open>\<^verbatim>\<open>d[k] = d.get(k, 0) + 1\<close>\<close>

definition count_up :: "counts \<Rightarrow> string \<Rightarrow> counts" where
  "count_up d k = AList.update k (dict_get d k 0 + 1) d"

text \<open>\<^verbatim>\<open>d[k] += 1\<close>, which raises KeyError when the key is missing.\<close>

definition incr_existing :: "counts \<Rightarrow> string \<Rightarrow> py_error + counts" where
  "incr_existing d k =
     (case map_of d k of None \<Rightarrow> Inl KeyError | Some v \<Rightarrow> Inr (AList.update k (v + 1) d))"

subsection \<open>Quality presets\<close>

record preset =
  blur_threshold :: rat
  black_threshold :: rat
  variance_threshold :: rat
  edge_threshold :: rat
  contrast_threshold :: int
  phash_threshold :: int
  description :: string

definition strict_preset :: preset where
  "strict_preset = \<lparr>blur_threshold = 50, black_threshold = 75 / 100, variance_threshold = 200,
     edge_threshold = 2 / 100, contrast_threshold = 50, phash_threshold = 6,
     description = ''Highest quality only - saves credits''\<rparr>"

definition medium_preset :: preset where
  "medium_preset = \<lparr>blur_threshold = 25, black_threshold = 85 / 100, variance_threshold = 100,
     edge_threshold = 1 / 100, contrast_threshold = 30, phash_threshold = 8,
     description = ''Balanced quality - recommended''\<rparr>"

definition high_preset :: preset where
  "high_preset = \<lparr>blur_threshold = 10, black_threshold = 92 / 100, variance_threshold = 50,
     edge_threshold = 5 / 1000, contrast_threshold = 20, phash_threshold = 10,
     description = ''Minimal cuts - only removes completely black/blurry''\<rparr>"

definition QUALITY_PRESETS :: "(string \<times> preset) list" where
  "QUALITY_PRESETS =
     [(''strict'', strict_preset), (''medium'', medium_preset), (''high'', high_preset)]"

text \<open>\<^verbatim>\<open>QUALITY_PRESETS.get(quality_mode, QUALITY_PRESETS["medium"])\<close>\<close>

definition get_preset :: "string \<Rightarrow> preset" where
  "get_preset quality_mode =
     (case map_of QUALITY_PRESETS quality_mode of None \<Rightarrow> medium_preset | Some p \<Rightarrow> p)"

subsection \<open>Frames, files and videos\<close>

text \<open>
  The grayscale image of \<^verbatim>\<open>is_bad_frame\<close>: \<open>black_ratio\<close> is
  \<^verbatim>\<open>np.sum(gray < 30) / gray.size\<close>, \<open>variance\<close> is \<^verbatim>\<open>np.var(gray)\<close>, \<open>edge_ratio\<close> is
  the Canny edge fraction, \<open>laplacian_var\<close> the variance of the Laplacian and
  \<open>non_zero\<close> the number of histogram bins above 0.001.
\<close>

record gray_image =
  black_ratio :: "rat raising"
  variance :: "rat raising"
  edge_ratio :: "rat raising"
  laplacian_var :: "rat raising"
  non_zero :: "int raising"

text \<open>A decoded colour image, given by the outcome of \<^verbatim>\<open>cv2.cvtColor\<close> on it.\<close>

type_synonym image = "gray_image raising"

text \<open>A perceptual hash of imagehash's default size, 8 by 8 bits.\<close>

type_synonym phash = "64 word"

text \<open>
  A JPEG file: \<open>imread\<close> is the outcome of \<^verbatim>\<open>cv2.imread(path)\<close> (\<open>None\<close> when the
  file does not decode), \<open>imread_grayscale\<close> the outcome of the grayscale read of
  \<^verbatim>\<open>measure_sharpness\<close> together with that of the Laplacian variance of the image
  read, and \<open>phash_of\<close> the outcome of \<^verbatim>\<open>imagehash.phash(Image.open(path))\<close>.
\<close>

record jpeg =
  imread :: "image option raising"
  imread_grayscale :: "rat raising option raising"
  phash_of :: "phash raising"

datatype path = Temp nat int | Selected nat | Rejected nat

type_synonym files = "path \<Rightarrow> jpeg option"

text \<open>
  An opened \<^verbatim>\<open>cv2.VideoCapture\<close>: the two properties the source reads, and the
  frame that \<^verbatim>\<open>cap.read()\<close> yields after seeking to a frame number (\<open>None\<close> when
  \<^verbatim>\<open>ret\<close> is false), already as the JPEG that \<^verbatim>\<open>cv2.imwrite\<close> makes of it.
\<close>

record video =
  fps :: rat
  frame_count :: rat
  read_frame :: "int \<Rightarrow> jpeg option"

record scene =
  scene_start :: rat
  scene_end :: rat

subsection \<open>Frame quality filters\<close>

definition cv2_imread :: "files \<Rightarrow> path \<Rightarrow> image option raising" where
  "cv2_imread fs p = (case fs p of None \<Rightarrow> Inr None | Some f \<Rightarrow> imread f)"

definition measure_sharpness :: "files \<Rightarrow> path \<Rightarrow> rat" where
  "measure_sharpness fs image_path =
     (case fs image_path of
        None \<Rightarrow> 0
      | Some f \<Rightarrow>
          (case imread_grayscale f of
             Inl e \<Rightarrow> 0
           | Inr None \<Rightarrow> 0
           | Inr (Some img) \<Rightarrow> (case img of Inl e \<Rightarrow> 0 | Inr v \<Rightarrow> v)))"

definition check_error :: "string \<Rightarrow> string" where
  "check_error e = ''check_error: '' @ e"

definition is_bad_frame :: "files \<Rightarrow> path \<Rightarrow> string \<Rightarrow> bool \<times> string" where
  "is_bad_frame fs image_path quality_mode =
     (let p = get_preset quality_mode in
      case cv2_imread fs image_path of
        Inl e \<Rightarrow> (False, check_error e)
      | Inr None \<Rightarrow> (True, ''unreadable'')
      | Inr (Some img) \<Rightarrow>
     (case img of
        Inl e \<Rightarrow> (False, check_error e)
      | Inr gray \<Rightarrow>
     (case black_ratio gray of
        Inl e \<Rightarrow> (False, check_error e)
      | Inr br \<Rightarrow>
      if br > black_threshold p then (True, ''black'') else
     (case variance gray of
        Inl e \<Rightarrow> (False, check_error e)
      | Inr v \<Rightarrow>
      if v < variance_threshold p then (True, ''solid_color'') else
     (case edge_ratio gray of
        Inl e \<Rightarrow> (False, check_error e)
      | Inr er \<Rightarrow>
      if er < edge_threshold p \<and> v < 500 then (True, ''text_only'') else
     (case laplacian_var gray of
        Inl e \<Rightarrow> (False, check_error e)
      | Inr sharpness \<Rightarrow>
      if sharpness < blur_threshold p then (True, ''blurry'') else
     (case non_zero gray of
        Inl e \<Rightarrow> (False, check_error e)
      | Inr nz \<Rightarrow>
      if nz < contrast_threshold p then (True, ''low_contrast'') else (False, ''OK''))))))))"

definition compute_phash :: "files \<Rightarrow> path \<Rightarrow> phash option" where
  "compute_phash fs image_path =
     (case fs image_path of
        None \<Rightarrow> None
      | Some f \<Rightarrow> (case phash_of f of Inl e \<Rightarrow> None | Inr h \<Rightarrow> Some h))"

text \<open>\<^verbatim>\<open>current_hash - h\<close> on two image hashes: the number of bits that differ.\<close>

definition hash_distance :: "phash \<Rightarrow> phash \<Rightarrow> nat" where
  "hash_distance a b = length (filter (bit (a XOR b)) [0..<64])"

fun is_duplicate :: "phash option \<Rightarrow> phash option list \<Rightarrow> int \<Rightarrow> bool" where
  "is_duplicate None seen_hashes threshold = False"
| "is_duplicate (Some c) [] threshold = False"
| "is_duplicate (Some c) (None # hs) threshold = is_duplicate (Some c) hs threshold"
| "is_duplicate (Some c) (Some h # hs) threshold =
     (if int (hash_distance c h) < threshold then True
      else is_duplicate (Some c) hs threshold)"

text \<open>The reasons that \<^verbatim>\<open>is_bad_frame\<close> returns together with \<^verbatim>\<open>True\<close>.\<close>

definition bad_reasons :: "string set" where
  "bad_reasons =
     {''unreadable'', ''black'', ''solid_color'', ''text_only'', ''blurry'', ''low_contrast''}"

subsection \<open>Scene detection\<close>

text \<open>
  The argument is the outcome of \<^verbatim>\<open>scenedetect.detect\<close> on the video: the list of
  (start, end) seconds of the scenes found, or the exception raised.
\<close>

definition detect_scenes :: "(rat \<times> rat) list raising \<Rightarrow> scene list" where
  "detect_scenes detected =
     (case detected of
        Inl e \<Rightarrow> []
      | Inr ss \<Rightarrow> map (\<lambda>s. \<lparr>scene_start = fst s, scene_end = snd s\<rparr>) ss)"

text \<open>
  Step 2 of \<^verbatim>\<open>process_video\<close>: the fields of \<^verbatim>\<open>results\<close> it touches, and the early
  return (\<open>Inl\<close>) on an empty scene list.
\<close>

record results =
  status :: string
  scenes_found :: nat
  errors :: "string list"

definition scene_detection_step ::
  "results \<Rightarrow> (rat \<times> rat) list raising \<Rightarrow> results + (results \<times> scene list)" where
  "scene_detection_step res detected =
     (let scenes = detect_scenes detected;
          res = res\<lparr>scenes_found := length scenes\<rparr>
      in if scenes = []
         then Inl (res\<lparr>errors := errors res @ [''No scenes''], status := ''failed''\<rparr>)
         else Inr (res, scenes))"

subsection \<open>Smart frame extraction\<close>

text \<open>
  The dicts appended to \<^verbatim>\<open>selected_frames\<close> and to \<^verbatim>\<open>rejected_frames\<close>. The keys
  \<^verbatim>\<open>timestamp\<close> and \<^verbatim>\<open>selected\<close> of a rejected frame are optional: only a frame
  rejected by the quality filter has a timestamp, and \<^verbatim>\<open>selected\<close> is set when the
  frame's file is renamed.
\<close>

record selected_frame =
  s_path :: path
  s_scene_start :: rat
  s_scene_end :: rat
  s_sharpness :: rat
  s_selected :: bool

record rejected_frame =
  r_path :: path
  r_reason :: string
  r_scene_start :: rat
  r_scene_end :: rat
  r_timestamp :: "rat option"
  r_selected :: "bool option"

text \<open>
  The mutable variables of \<^verbatim>\<open>extract_smart_keyframes\<close>; \<open>stats_rejected\<close> is
  \<^verbatim>\<open>stats["rejected"]\<close>, \<open>files\<close> the content of \<^verbatim>\<open>frames_dir\<close>. The variable
  \<^verbatim>\<open>best_frame\<close> is assigned and never read, and is left out.
\<close>

record state =
  files :: files
  selected_frames :: "selected_frame list"
  rejected_frames :: "rejected_frame list"
  seen_hashes :: "phash option list"
  stats_rejected :: counts
  best_sharpness :: rat
  best_path :: "path option"
  rejected_in_scene :: "rejected_frame list"

record stats =
  total_scenes :: nat
  rejected_by_reason :: counts

record extraction =
  selected :: "selected_frame list"
  rejected :: "rejected_frame list"
  stats :: stats
  quality_mode_used :: string

definition os_rename :: "files \<Rightarrow> path \<Rightarrow> path \<Rightarrow> py_error + files" where
  "os_rename fs src dst =
     (case fs src of
        None \<Rightarrow> Inl FileNotFoundError
      | Some f \<Rightarrow> Inr ((fs(src := None))(dst \<mapsto> f)))"

text \<open>The loop over \<^verbatim>\<open>range(samples_per_scene)\<close> that fills \<^verbatim>\<open>sample_points\<close>.\<close>

fun sample_points_loop :: "scene \<Rightarrow> int list \<Rightarrow> rat list \<Rightarrow> rat list" where
  "sample_points_loop sc [] sample_points = sample_points"
| "sample_points_loop sc (i # is) sample_points =
     (let scene_duration = scene_end sc - scene_start sc;
          offset = scene_duration * (2 / 10 + 3 / 10 * of_int i);
          sample_time = scene_start sc + offset
      in if sample_time < scene_end sc
         then sample_points_loop sc is (sample_points @ [sample_time])
         else sample_points_loop sc is sample_points)"

definition sample_points :: "scene \<Rightarrow> int \<Rightarrow> rat list" where
  "sample_points sc samples_per_scene = sample_points_loop sc [0..samples_per_scene - 1] []"

text \<open>The body of the loop over \<^verbatim>\<open>sample_points\<close>.\<close>

definition try_sample :: "video \<Rightarrow> string \<Rightarrow> nat \<Rightarrow> scene \<Rightarrow> rat \<Rightarrow> state \<Rightarrow> state" where
  "try_sample vid quality_mode scene_idx sc sample_time st =
     (let frame_num = py_int (sample_time * fps vid) in
      if frame_num \<ge> py_int (frame_count vid) then st
      else case read_frame vid frame_num of
        None \<Rightarrow> st
      | Some frame \<Rightarrow>
          (let temp_path = Temp scene_idx frame_num;
               st = st\<lparr>files := (files st)(temp_path \<mapsto> frame)\<rparr>;
               (is_bad, reason) = is_bad_frame (files st) temp_path quality_mode
           in if is_bad
              then st\<lparr>stats_rejected := count_up (stats_rejected st) reason,
                      rejected_in_scene := rejected_in_scene st @
                        [\<lparr>r_path = temp_path, r_reason = reason,
                          r_scene_start = scene_start sc, r_scene_end = scene_end sc,
                          r_timestamp = Some sample_time, r_selected = None\<rparr>]\<rparr>
              else
                (let sharpness = measure_sharpness (files st) temp_path
                 in if sharpness > best_sharpness st
                    then
                      (let st =
                         (case best_path st of
                            None \<Rightarrow> st
                          | Some bp \<Rightarrow>
                              if files st bp \<noteq> None
                              then st\<lparr>rejected_in_scene := rejected_in_scene st @
                                     [\<lparr>r_path = bp, r_reason = ''not_sharpest'',
                                       r_scene_start = scene_start sc,
                                       r_scene_end = scene_end sc,
                                       r_timestamp = None, r_selected = None\<rparr>]\<rparr>
                              else st)
                       in st\<lparr>best_sharpness := sharpness, best_path := Some temp_path\<rparr>)
                    else st\<lparr>rejected_in_scene := rejected_in_scene st @
                           [\<lparr>r_path = temp_path, r_reason = ''not_sharpest'',
                             r_scene_start = scene_start sc, r_scene_end = scene_end sc,
                             r_timestamp = None, r_selected = None\<rparr>]\<rparr>)))"

fun samples_loop :: "video \<Rightarrow> string \<Rightarrow> nat \<Rightarrow> scene \<Rightarrow> rat list \<Rightarrow> state \<Rightarrow> state" where
  "samples_loop vid quality_mode scene_idx sc [] st = st"
| "samples_loop vid quality_mode scene_idx sc (sample_time # ts) st =
     samples_loop vid quality_mode scene_idx sc ts
       (try_sample vid quality_mode scene_idx sc sample_time st)"

text \<open>
  The duplicate check on the scene's best frame. The Supabase variant counts a
  duplicate with \<^verbatim>\<open>stats["rejected"]["duplicate"] += 1\<close>.
\<close>

definition check_duplicate :: "string \<Rightarrow> scene \<Rightarrow> state \<Rightarrow> py_error + state" where
  "check_duplicate quality_mode sc st =
     (let phash_threshold = phash_threshold (get_preset quality_mode) in
      case best_path st of
        None \<Rightarrow> Inr st
      | Some bp \<Rightarrow>
          if best_sharpness st > 0
          then
            (let current_hash = compute_phash (files st) bp
             in if is_duplicate current_hash (seen_hashes st) phash_threshold
                then
                  (case incr_existing (stats_rejected st) ''duplicate'' of
                     Inl e \<Rightarrow> Inl e
                   | Inr d \<Rightarrow>
                       Inr (st\<lparr>stats_rejected := d,
                               rejected_in_scene := rejected_in_scene st @
                                 [\<lparr>r_path = bp, r_reason = ''duplicate'',
                                   r_scene_start = scene_start sc, r_scene_end = scene_end sc,
                                   r_timestamp = None, r_selected = None\<rparr>]\<rparr>))
                else
                  (let final_path = Selected (length (selected_frames st))
                   in case os_rename (files st) bp final_path of
                        Inl e \<Rightarrow> Inl e
                      | Inr fs \<Rightarrow>
                          Inr (st\<lparr>files := fs,
                                  seen_hashes := seen_hashes st @ [current_hash],
                                  selected_frames := selected_frames st @
                                    [\<lparr>s_path = final_path, s_scene_start = scene_start sc,
                                      s_scene_end = scene_end sc,
                                      s_sharpness = best_sharpness st,
                                      s_selected = True\<rparr>]\<rparr>)))
          else Inr st)"

text \<open>The loop that renames the rejected frames of the scene.\<close>

fun rename_rejected :: "rejected_frame list \<Rightarrow> state \<Rightarrow> py_error + state" where
  "rename_rejected [] st = Inr st"
| "rename_rejected (rej # rest) st =
     (if files st (r_path rej) \<noteq> None
      then
        (let new_path = Rejected (length (rejected_frames st))
         in case os_rename (files st) (r_path rej) new_path of
              Inl e \<Rightarrow> Inl e
            | Inr fs \<Rightarrow>
                rename_rejected rest
                  (st\<lparr>files := fs,
                      rejected_frames := rejected_frames st @
                        [rej\<lparr>r_path := new_path, r_selected := Some False\<rparr>]\<rparr>))
      else rename_rejected rest st)"

text \<open>One iteration of the loop over the scenes, for a scene that is not skipped.\<close>

definition process_scene ::
  "video \<Rightarrow> int \<Rightarrow> string \<Rightarrow> nat \<Rightarrow> scene \<Rightarrow> state \<Rightarrow> py_error + state" where
  "process_scene vid samples_per_scene quality_mode scene_idx sc st =
     (let st = st\<lparr>best_sharpness := 0, best_path := None, rejected_in_scene := []\<rparr>;
          st = samples_loop vid quality_mode scene_idx sc (sample_points sc samples_per_scene) st
      in case check_duplicate quality_mode sc st of
           Inl e \<Rightarrow> Inl e
         | Inr st \<Rightarrow> rename_rejected (rejected_in_scene st) st)"

fun scene_loop ::
  "video \<Rightarrow> int \<Rightarrow> int \<Rightarrow> string \<Rightarrow> nat \<Rightarrow> scene list \<Rightarrow> state \<Rightarrow> py_error + state" where
  "scene_loop vid max_frames samples_per_scene quality_mode scene_idx [] st = Inr st"
| "scene_loop vid max_frames samples_per_scene quality_mode scene_idx (sc # rest) st =
     (let scene_duration = double (scene_end sc - scene_start sc);
          scene_frame_count = py_int (double (scene_duration * fps vid))
      in if scene_frame_count < 3
         then scene_loop vid max_frames samples_per_scene quality_mode (Suc scene_idx) rest st
         else
           (case process_scene vid samples_per_scene quality_mode scene_idx sc st of
              Inl e \<Rightarrow> Inl e
            | Inr st \<Rightarrow>
                if int (length (selected_frames st)) \<ge> max_frames then Inr st
                else scene_loop vid max_frames samples_per_scene quality_mode
                       (Suc scene_idx) rest st))"

text \<open>The limit on the number of scenes: \<^verbatim>\<open>valid_scenes[::step]\<close>.\<close>

definition limit_scenes :: "scene list \<Rightarrow> int \<Rightarrow> py_error + scene list" where
  "limit_scenes valid_scenes max_frames =
     (if int (length valid_scenes) > max_frames * 2
      then
        (if max_frames = 0 then Inl ZeroDivisionError
         else slice_step valid_scenes (int (length valid_scenes) div max_frames))
      else Inr valid_scenes)"

definition initial_stats_rejected :: counts where
  "initial_stats_rejected =
     [(''black'', 0), (''blurry'', 0), (''duplicate'', 0), (''text_only'', 0),
      (''solid_color'', 0), (''low_contrast'', 0), (''other'', 0)]"

definition initial_state :: "files \<Rightarrow> counts \<Rightarrow> state" where
  "initial_state frames_dir d =
     \<lparr>files = frames_dir, selected_frames = [], rejected_frames = [], seen_hashes = [],
      stats_rejected = d, best_sharpness = 0, best_path = None, rejected_in_scene = []\<rparr>"

definition extract_smart_keyframes ::
  "video \<Rightarrow> scene list \<Rightarrow> files \<Rightarrow> int \<Rightarrow> int \<Rightarrow> rat \<Rightarrow> string \<Rightarrow> py_error + extraction" where
  "extract_smart_keyframes vid scenes frames_dir max_frames samples_per_scene
       min_scene_duration quality_mode =
     (let valid_scenes =
            filter (\<lambda>s. double (scene_end s - scene_start s) \<ge> min_scene_duration) scenes
      in case limit_scenes valid_scenes max_frames of
           Inl e \<Rightarrow> Inl e
         | Inr valid_scenes \<Rightarrow>
             (case scene_loop vid max_frames samples_per_scene quality_mode 0 valid_scenes
                     (initial_state frames_dir initial_stats_rejected) of
                Inl e \<Rightarrow> Inl e
              | Inr st \<Rightarrow>
                  Inr \<lparr>selected = selected_frames st, rejected = rejected_frames st,
                       stats = \<lparr>total_scenes = length valid_scenes,
                                rejected_by_reason = stats_rejected st\<rparr>,
                       quality_mode_used = quality_mode\<rparr>))"

subsection \<open>The Convex variant\<close>

text \<open>
  In \<^verbatim>\<open>.archive/scripts/modal_fix.py\<close> the functions \<^verbatim>\<open>measure_sharpness\<close>,
  \<^verbatim>\<open>is_bad_frame\<close>, \<^verbatim>\<open>compute_phash\<close>, \<^verbatim>\<open>is_duplicate\<close> and \<^verbatim>\<open>detect_scenes\<close> and
  the two inner loops of \<^verbatim>\<open>extract_smart_keyframes\<close> have the same text as in
  \<^verbatim>\<open>modal_video_processor.py\<close>, and the definitions above stand for both. The
  extraction differs in two places: \<^verbatim>\<open>stats["rejected"]\<close> starts as the empty dict,
  and a duplicate is counted with
  \<^verbatim>\<open>stats["rejected"]["duplicate"] = stats["rejected"].get("duplicate", 0) + 1\<close>.
\<close>

definition check_duplicate_convex :: "string \<Rightarrow> scene \<Rightarrow> state \<Rightarrow> py_error + state" where
  "check_duplicate_convex quality_mode sc st =
     (let phash_threshold = phash_threshold (get_preset quality_mode) in
      case best_path st of
        None \<Rightarrow> Inr st
      | Some bp \<Rightarrow>
          if best_sharpness st > 0
          then
            (let current_hash = compute_phash (files st) bp
             in if is_duplicate current_hash (seen_hashes st) phash_threshold
                then
                  Inr (st\<lparr>stats_rejected := count_up (stats_rejected st) ''duplicate'',
                          rejected_in_scene := rejected_in_scene st @
                            [\<lparr>r_path = bp, r_reason = ''duplicate'',
                              r_scene_start = scene_start sc, r_scene_end = scene_end sc,
                              r_timestamp = None, r_selected = None\<rparr>]\<rparr>)
                else
                  (let final_path = Selected (length (selected_frames st))
                   in case os_rename (files st) bp final_path of
                        Inl e \<Rightarrow> Inl e
                      | Inr fs \<Rightarrow>
                          Inr (st\<lparr>files := fs,
                                  seen_hashes := seen_hashes st @ [current_hash],
                                  selected_frames := selected_frames st @
                                    [\<lparr>s_path = final_path, s_scene_start = scene_start sc,
                                      s_scene_end = scene_end sc,
                                      s_sharpness = best_sharpness st,
                                      s_selected = True\<rparr>]\<rparr>)))
          else Inr st)"

definition process_scene_convex ::
  "video \<Rightarrow> int \<Rightarrow> string \<Rightarrow> nat \<Rightarrow> scene \<Rightarrow> state \<Rightarrow> py_error + state" where
  "process_scene_convex vid samples_per_scene quality_mode scene_idx sc st =
     (let st = st\<lparr>best_sharpness := 0, best_path := None, rejected_in_scene := []\<rparr>;
          st = samples_loop vid quality_mode scene_idx sc (sample_points sc samples_per_scene) st
      in case check_duplicate_convex quality_mode sc st of
           Inl e \<Rightarrow> Inl e
         | Inr st \<Rightarrow> rename_rejected (rejected_in_scene st) st)"

fun scene_loop_convex ::
  "video \<Rightarrow> int \<Rightarrow> int \<Rightarrow> string \<Rightarrow> nat \<Rightarrow> scene list \<Rightarrow> state \<Rightarrow> py_error + state" where
  "scene_loop_convex vid max_frames samples_per_scene quality_mode scene_idx [] st = Inr st"
| "scene_loop_convex vid max_frames samples_per_scene quality_mode scene_idx (sc # rest) st =
     (let scene_duration = double (scene_end sc - scene_start sc);
          scene_frame_count = py_int (double (scene_duration * fps vid))
      in if scene_frame_count < 3
         then scene_loop_convex vid max_frames samples_per_scene quality_mode
                (Suc scene_idx) rest st
         else
           (case process_scene_convex vid samples_per_scene quality_mode scene_idx sc st of
              Inl e \<Rightarrow> Inl e
            | Inr st \<Rightarrow>
                if int (length (selected_frames st)) \<ge> max_frames then Inr st
                else scene_loop_convex vid max_frames samples_per_scene quality_mode
                       (Suc scene_idx) rest st))"

definition extract_smart_keyframes_convex ::
  "video \<Rightarrow> scene list \<Rightarrow> files \<Rightarrow> int \<Rightarrow> int \<Rightarrow> rat \<Rightarrow> string \<Rightarrow> py_error + extraction" where
  "extract_smart_keyframes_convex vid scenes frames_dir max_frames samples_per_scene
       min_scene_duration quality_mode =
     (let valid_scenes =
            filter (\<lambda>s. double (scene_end s - scene_start s) \<ge> min_scene_duration) scenes
      in case limit_scenes valid_scenes max_frames of
           Inl e \<Rightarrow> Inl e
         | Inr valid_scenes \<Rightarrow>
             (case scene_loop_convex vid max_frames samples_per_scene quality_mode 0
                     valid_scenes (initial_state frames_dir []) of
                Inl e \<Rightarrow> Inl e
              | Inr st \<Rightarrow>
                  Inr \<lparr>selected = selected_frames st, rejected = rejected_frames st,
                       stats = \<lparr>total_scenes = length valid_scenes,
                                rejected_by_reason = stats_rejected st\<rparr>,
                       quality_mode_used = quality_mode\<rparr>))"

text \<open>
  The relation in which the two variants keep their states: the same files, frames,
  hashes and scene variables, the counts apart, and a count for \<^verbatim>\<open>duplicate\<close> present
  in the Supabase variant's dict.
\<close>

definition variants_agree :: "state \<Rightarrow> state \<Rightarrow> bool" where
  "variants_agree a b \<longleftrightarrow>
     files a = files b \<and> selected_frames a = selected_frames b \<and>
     rejected_frames a = rejected_frames b \<and> seen_hashes a = seen_hashes b \<and>
     best_sharpness a = best_sharpness b \<and> best_path a = best_path b \<and>
     rejected_in_scene a = rejected_in_scene b \<and>
     ''duplicate'' \<in> fst ` set (stats_rejected a)"

subsection \<open>Concrete inputs\<close>

text \<open>
  A well-exposed frame of Laplacian variance \<open>s\<close> whose perceptual hash is computed
  with outcome \<open>h\<close>, an empty frames directory, and a video of twenty frames at one
  frame per second: the frames before second 10 hash to \<open>h1\<close>, the later ones to
  \<open>h2\<close>, and frames 5 and 15 are the sharpest of their halves.
\<close>

definition good_gray :: "rat \<Rightarrow> gray_image" where
  "good_gray s = \<lparr>black_ratio = Inr (1 / 10), variance = Inr 1000, edge_ratio = Inr (1 / 10),
     laplacian_var = Inr s, non_zero = Inr 200\<rparr>"

definition good_jpeg :: "phash raising \<Rightarrow> rat \<Rightarrow> jpeg" where
  "good_jpeg h s = \<lparr>imread = Inr (Some (Inr (good_gray s))),
     imread_grayscale = Inr (Some (Inr s)), phash_of = h\<rparr>"

definition empty_dir :: files where
  "empty_dir = (\<lambda>p. None)"

definition two_shot_video :: "phash raising \<Rightarrow> phash raising \<Rightarrow> video" where
  "two_shot_video h1 h2 =
     \<lparr>fps = 1, frame_count = 20,
      read_frame = (\<lambda>n. Some (good_jpeg (if n < 10 then h1 else h2)
                                (if n = 5 \<or> n = 15 then 100 else 60)))\<rparr>"

definition two_shots :: "scene list" where
  "two_shots = [\<lparr>scene_start = 0, scene_end = 10\<rparr>, \<lparr>scene_start = 10, scene_end = 20\<rparr>]"

text \<open>A video of four frames per second, and a shot of half a second.\<close>

definition four_fps_video :: video where
  "four_fps_video = \<lparr>fps = 4, frame_count = 40,
     read_frame = (\<lambda>n. Some (good_jpeg (Inr 0) 100))\<rparr>"

definition half_second_shot :: scene where
  "half_second_shot = \<lparr>scene_start = 0, scene_end = 1 / 2\<rparr>"






text \<open>
  The state after the samples of a scene whose best frame, of sharpness 100, has no
  perceptual hash: \<^verbatim>\<open>imagehash\<close> raises on its file.
\<close>

definition unhashed_best_state :: state where
  "unhashed_best_state =
     \<lparr>files = empty_dir(Temp 0 5 \<mapsto> good_jpeg (Inl ''cannot identify image file'') 100),
      selected_frames = [], rejected_frames = [], seen_hashes = [],
      stats_rejected = initial_stats_rejected, best_sharpness = 100,
      best_path = Some (Temp 0 5), rejected_in_scene = []\<rparr>"

section \<open>Properties\<close>

subsection \<open>Presets and the quality filter\<close>

lemma get_preset_simps:
  "get_preset ''strict'' = strict_preset"
  "get_preset ''medium'' = medium_preset"
  "get_preset ''high'' = high_preset"
  by (simp_all add: get_preset_def QUALITY_PRESETS_def)

lemmas preset_defs = strict_preset_def medium_preset_def high_preset_def

text \<open>
  Claim C6. Acceptance by the quality filter is monotone along the shipped presets: a
  file that \<^verbatim>\<open>is_bad_frame\<close> accepts under "strict" is accepted under "medium", and
  one accepted under "medium" is accepted under "high". This holds for every file,
  hence for every decodable one.
\<close>

theorem presets_acceptance_monotone:
  "(\<not> fst (is_bad_frame fs p ''strict'') \<longrightarrow> \<not> fst (is_bad_frame fs p ''medium'')) \<and>
   (\<not> fst (is_bad_frame fs p ''medium'') \<longrightarrow> \<not> fst (is_bad_frame fs p ''high''))"
proof (cases "cv2_imread fs p")
  case (Inl e)
  then show ?thesis by (simp add: is_bad_frame_def)
next
  case (Inr io)
  show ?thesis
  proof (cases io)
    case None
    with Inr show ?thesis by (simp add: is_bad_frame_def)
  next
    case (Some img)
    show ?thesis
    proof (cases img)
      case (Inl e)
      with Inr Some show ?thesis by (simp add: is_bad_frame_def)
    next
      case gray: (Inr gray)
      note unfold = is_bad_frame_def Let_def get_preset_simps preset_defs Inr Some gray
      show ?thesis
      proof (cases "black_ratio gray")
        case (Inl e)
        then show ?thesis by (simp add: unfold)
      next
        case br: (Inr br)
        show ?thesis
        proof (cases "variance gray")
          case (Inl e)
          then show ?thesis by (simp add: unfold br)
        next
          case v: (Inr v)
          show ?thesis
          proof (cases "edge_ratio gray")
            case (Inl e)
            then show ?thesis by (simp add: unfold br v)
          next
            case er: (Inr er)
            show ?thesis
            proof (cases "laplacian_var gray")
              case (Inl e)
              then show ?thesis by (simp add: unfold br v er)
            next
              case s: (Inr s)
              show ?thesis
                by (cases "non_zero gray") (simp_all add: unfold br v er s)
            qed
          qed
        qed
      qed
    qed
  qed
qed

theorem presets_acceptance_monotone_witness:
  "\<not> fst (is_bad_frame (empty_dir(Temp 0 0 \<mapsto> good_jpeg (Inr 0) 100)) (Temp 0 0) ''strict'') \<and>
   \<not> fst (is_bad_frame (empty_dir(Temp 0 0 \<mapsto> good_jpeg (Inr 0) 100)) (Temp 0 0) ''medium'') \<and>
   \<not> fst (is_bad_frame (empty_dir(Temp 0 0 \<mapsto> good_jpeg (Inr 0) 100)) (Temp 0 0) ''high'')"
proof -
  have "\<not> fst (is_bad_frame (empty_dir(Temp 0 0 \<mapsto> good_jpeg (Inr 0) 100)) (Temp 0 0) ''strict'')"
    by (simp add: is_bad_frame_def cv2_imread_def good_jpeg_def good_gray_def
          get_preset_simps strict_preset_def)
  with presets_acceptance_monotone
         [of "empty_dir(Temp 0 0 \<mapsto> good_jpeg (Inr 0) 100)" "Temp 0 0"]
  show ?thesis by blast
qed

subsection \<open>Scene detection\<close>

text \<open>
  Claim C2, as stated, asks that a video that cannot be decoded and a video without
  content changes give different outcomes of scene detection. They give the same one:
  the exception of the detector is caught and the empty list is returned.
\<close>

theorem detect_scenes_decode_failure_counterexample:
  "detect_scenes (Inl ''cannot open video'') = detect_scenes (Inr [])"
  by (simp add: detect_scenes_def)

text \<open>
  Claim C2, amended. Scene detection never fails: whatever exception the detector
  raises, the result is the empty scene list, the same as for a video in which no
  scene is found, and in both cases the pipeline ends as failed with the error
  "No scenes".
\<close>

theorem detect_scenes_swallows_errors:
  "detect_scenes (Inl e) = [] \<and> detect_scenes (Inr []) = [] \<and>
   scene_detection_step res (Inl e) =
     Inl (res\<lparr>scenes_found := 0, errors := errors res @ [''No scenes''],
              status := ''failed''\<rparr>) \<and>
   scene_detection_step res (Inr []) = scene_detection_step res (Inl e)"
  by (simp add: detect_scenes_def scene_detection_step_def)

subsection \<open>Sample points\<close>





subsection \<open>The fail-open path of the quality filter\<close>

lemma is_bad_frame_reason:
  assumes "fst (is_bad_frame fs p m)"
  shows "snd (is_bad_frame fs p m) \<in>
     {''unreadable'', ''black'', ''solid_color'', ''text_only'', ''blurry'', ''low_contrast''}"
proof (cases "cv2_imread fs p")
  case (Inl e)
  with assms show ?thesis by (simp add: is_bad_frame_def)
next
  case (Inr io)
  show ?thesis
  proof (cases io)
    case None
    with Inr show ?thesis by (simp add: is_bad_frame_def)
  next
    case (Some img)
    show ?thesis
    proof (cases img)
      case (Inl e)
      with Inr Some assms show ?thesis by (simp add: is_bad_frame_def)
    next
      case gray: (Inr gray)
      from assms show ?thesis
        by (cases "black_ratio gray"; cases "variance gray"; cases "edge_ratio gray";
            cases "laplacian_var gray"; cases "non_zero gray")
           (simp_all add: is_bad_frame_def Let_def Inr Some gray split: if_splits)
    qed
  qed
qed










subsection \<open>Duplicates\<close>

lemma distance_3_medium:
  "(case extract_smart_keyframes (two_shot_video (Inr 0) (Inr 7)) two_shots empty_dir 50 3
           (3 / 10) ''medium'' of
      Inl e \<Rightarrow> False
    | Inr r \<Rightarrow> map s_scene_start (selected r) = [0] \<and>
              (r_scene_start (last (rejected r)), r_reason (last (rejected r))) =
                (10, ''duplicate''))"
  by code_simp

lemma distance_3_strict:
  "(case extract_smart_keyframes (two_shot_video (Inr 0) (Inr 7)) two_shots empty_dir 50 3
           (3 / 10) ''strict'' of
      Inl e \<Rightarrow> False
    | Inr r \<Rightarrow> map s_scene_start (selected r) = [0] \<and>
              (r_scene_start (last (rejected r)), r_reason (last (rejected r))) =
                (10, ''duplicate''))"
  by code_simp

lemma distance_9_medium:
  "(case extract_smart_keyframes (two_shot_video (Inr 0) (Inr 511)) two_shots empty_dir 50 3
           (3 / 10) ''medium'' of
      Inl e \<Rightarrow> False
    | Inr r \<Rightarrow> map s_scene_start (selected r) = [0, 10] \<and>
              ''duplicate'' \<notin> set (map r_reason (rejected r)))"
  by code_simp

lemma distance_9_strict:
  "(case extract_smart_keyframes (two_shot_video (Inr 0) (Inr 511)) two_shots empty_dir 50 3
           (3 / 10) ''strict'' of
      Inl e \<Rightarrow> False
    | Inr r \<Rightarrow> map s_scene_start (selected r) = [0, 10] \<and>
              ''duplicate'' \<notin> set (map r_reason (rejected r)))"
  by code_simp

lemma hash_distances: "hash_distance 0 7 = 3 \<and> hash_distance 0 511 = 9"
  by code_simp

text \<open>
  Claim C3. With winning frames at hash distance 3 the second shot is rejected as a
  duplicate under "medium" and under "strict", and at distance 9 "medium" selects
  both shots: so far the code does what the claim says. At distance 9 under "strict"
  the claim has the second shot rejected, and the code selects both shots, since 9 is
  not below the threshold 6 of "strict".
\<close>

theorem strict_selects_both_at_distance_9:
  "hash_distance 0 7 = 3 \<and> hash_distance 0 511 = 9 \<and>
   (case extract_smart_keyframes (two_shot_video (Inr 0) (Inr 7)) two_shots empty_dir 50 3
           (3 / 10) ''medium'' of
      Inl e \<Rightarrow> False
    | Inr r \<Rightarrow> map s_scene_start (selected r) = [0] \<and>
              (r_scene_start (last (rejected r)), r_reason (last (rejected r))) =
                (10, ''duplicate'')) \<and>
   (case extract_smart_keyframes (two_shot_video (Inr 0) (Inr 7)) two_shots empty_dir 50 3
           (3 / 10) ''strict'' of
      Inl e \<Rightarrow> False
    | Inr r \<Rightarrow> map s_scene_start (selected r) = [0] \<and>
              (r_scene_start (last (rejected r)), r_reason (last (rejected r))) =
                (10, ''duplicate'')) \<and>
   (case extract_smart_keyframes (two_shot_video (Inr 0) (Inr 511)) two_shots empty_dir 50 3
           (3 / 10) ''medium'' of
      Inl e \<Rightarrow> False
    | Inr r \<Rightarrow> map s_scene_start (selected r) = [0, 10] \<and>
              ''duplicate'' \<notin> set (map r_reason (rejected r))) \<and>
   (case extract_smart_keyframes (two_shot_video (Inr 0) (Inr 511)) two_shots empty_dir 50 3
           (3 / 10) ''strict'' of
      Inl e \<Rightarrow> False
    | Inr r \<Rightarrow> map s_scene_start (selected r) = [0, 10] \<and>
              ''duplicate'' \<notin> set (map r_reason (rejected r)))"
  using hash_distances distance_3_medium distance_3_strict distance_9_medium distance_9_strict
  by (intro conjI) blast+

lemma is_duplicate_skips_None:
  "is_duplicate h seen t = is_duplicate h (filter (\<lambda>x. x \<noteq> None) seen) t"
  by (induction h seen t rule: is_duplicate.induct) simp_all

text \<open>
  Claim C5, as stated, has the \<^verbatim>\<open>None\<close> fingerprint of a winning frame left out of the
  seen fingerprints. The extraction appends it: after two shots whose first winner has
  no perceptual hash, the list holds \<^verbatim>\<open>None\<close> and the hash of the second winner.
\<close>

theorem none_hash_stored_counterexample:
  "(case scene_loop (two_shot_video (Inl ''cannot identify image file'') (Inr 0)) 50 3
           ''medium'' 0 two_shots (initial_state empty_dir initial_stats_rejected) of
      Inl e \<Rightarrow> False
    | Inr st \<Rightarrow> seen_hashes st = [None, Some 0])"
  by code_simp

text \<open>
  Claim C5, amended. A \<^verbatim>\<open>None\<close> fingerprint is never a duplicate, whatever has been
  seen; a winning frame whose fingerprint is \<^verbatim>\<open>None\<close> is selected and \<^verbatim>\<open>None\<close> is
  appended to the seen fingerprints; and the \<^verbatim>\<open>None\<close> entries are skipped by every
  comparison, which gives the same answer as on the list without them.
\<close>

theorem none_hash_never_duplicate:
  "is_duplicate None seen t = False \<and>
   is_duplicate h seen t = is_duplicate h (filter (\<lambda>x. x \<noteq> None) seen) t \<and>
   (best_path st = Some bp \<and> 0 < best_sharpness st \<and> files st bp \<noteq> None \<and>
    compute_phash (files st) bp = None \<longrightarrow>
      (\<exists>st'. check_duplicate q sc st = Inr st' \<and>
             seen_hashes st' = seen_hashes st @ [None] \<and>
             length (selected_frames st') = Suc (length (selected_frames st))))"
proof -
  have "\<exists>st'. check_duplicate q sc st = Inr st' \<and>
             seen_hashes st' = seen_hashes st @ [None] \<and>
             length (selected_frames st') = Suc (length (selected_frames st))"
    if "best_path st = Some bp" "0 < best_sharpness st" "files st bp \<noteq> None"
       "compute_phash (files st) bp = None"
    using that by (auto simp add: check_duplicate_def os_rename_def Let_def)
  then show ?thesis
    using is_duplicate_skips_None [of h seen t] by simp
qed

theorem none_hash_never_duplicate_witness:
  "best_path unhashed_best_state = Some (Temp 0 5) \<and> 0 < best_sharpness unhashed_best_state \<and>
   files unhashed_best_state (Temp 0 5) \<noteq> None \<and>
   compute_phash (files unhashed_best_state) (Temp 0 5) = None \<and>
   (\<exists>st'. check_duplicate ''medium'' \<lparr>scene_start = 0, scene_end = 10\<rparr> unhashed_best_state =
            Inr st' \<and> seen_hashes st' = [None] \<and> length (selected_frames st') = 1)"
proof -
  have h: "best_path unhashed_best_state = Some (Temp 0 5) \<and>
      0 < best_sharpness unhashed_best_state \<and>
      files unhashed_best_state (Temp 0 5) \<noteq> None \<and>
      compute_phash (files unhashed_best_state) (Temp 0 5) = None"
    by (simp add: unhashed_best_state_def compute_phash_def good_jpeg_def)
  have s: "seen_hashes unhashed_best_state = [] \<and> selected_frames unhashed_best_state = []"
    by (simp add: unhashed_best_state_def)
  from h s none_hash_never_duplicate
      [of "[]" 8 None unhashed_best_state "Temp 0 5" "''medium''"
          "\<lparr>scene_start = 0, scene_end = 10\<rparr>"]
  show ?thesis by simp
qed

subsection \<open>The frame cap\<close>

lemma try_sample_selected [simp]:
  "selected_frames (try_sample vid q idx sc t st) = selected_frames st"
  by (simp add: try_sample_def Let_def split: option.splits prod.splits)

lemma samples_loop_selected [simp]:
  "selected_frames (samples_loop vid q idx sc ts st) = selected_frames st"
  by (induction ts arbitrary: st) simp_all

lemma check_duplicate_selected:
  "check_duplicate q sc st = Inr st' \<Longrightarrow>
   length (selected_frames st') \<le> Suc (length (selected_frames st))"
  by (auto simp add: check_duplicate_def Let_def split: option.splits if_splits sum.splits)

lemma rename_rejected_selected:
  "rename_rejected rs st = Inr st' \<Longrightarrow> selected_frames st' = selected_frames st"
proof (induction rs arbitrary: st)
  case Nil
  then show ?case by simp
next
  case (Cons rej rs)
  show ?case
  proof (cases "files st (r_path rej) \<noteq> None")
    case True
    with Cons.prems obtain fs where
      "rename_rejected rs (st\<lparr>files := fs, rejected_frames := rejected_frames st @
          [rej\<lparr>r_path := Rejected (length (rejected_frames st)), r_selected := Some False\<rparr>]\<rparr>)
       = Inr st'"
      by (auto simp add: Let_def split: sum.splits)
    from Cons.IH [OF this] show ?thesis by simp
  next
    case False
    with Cons.prems have "rename_rejected rs st = Inr st'" by simp
    from Cons.IH [OF this] show ?thesis .
  qed
qed

lemma process_scene_selected:
  assumes "process_scene vid n q idx sc st = Inr st'"
  shows "length (selected_frames st') \<le> Suc (length (selected_frames st))"
proof -
  let ?st1 = "samples_loop vid q idx sc (sample_points sc n)
                 (st\<lparr>best_sharpness := 0, best_path := None, rejected_in_scene := []\<rparr>)"
  from assms obtain st2 where
    cd: "check_duplicate q sc ?st1 = Inr st2" and
    rn: "rename_rejected (rejected_in_scene st2) st2 = Inr st'"
    by (auto simp add: process_scene_def Let_def split: sum.splits)
  from check_duplicate_selected [OF cd] rename_rejected_selected [OF rn]
  show ?thesis by simp
qed

lemma scene_loop_cap:
  "scene_loop vid mf n q idx scs st = Inr st' \<Longrightarrow>
   int (length (selected_frames st)) < mf \<Longrightarrow>
   int (length (selected_frames st')) \<le> mf"
proof (induction scs arbitrary: st idx)
  case Nil
  then show ?case by simp
next
  case (Cons sc scs)
  show ?case
  proof (cases "py_int (double (double (scene_end sc - scene_start sc) * fps vid)) < 3")
    case True
    with Cons.prems(1) have "scene_loop vid mf n q (Suc idx) scs st = Inr st'"
      by simp
    from Cons.IH [OF this Cons.prems(2)] show ?thesis .
  next
    case False
    with Cons.prems(1) obtain st1 where
      ps: "process_scene vid n q idx sc st = Inr st1" and
      rest: "(if int (length (selected_frames st1)) \<ge> mf then Inr st1
              else scene_loop vid mf n q (Suc idx) scs st1) = Inr st'"
      by (auto simp add: Let_def split: sum.splits)
    from process_scene_selected [OF ps] Cons.prems(2)
    have le: "int (length (selected_frames st1)) \<le> mf" by simp
    show ?thesis
    proof (cases "int (length (selected_frames st1)) \<ge> mf")
      case True
      with rest le show ?thesis by simp
    next
      case False
      with rest have "scene_loop vid mf n q (Suc idx) scs st1 = Inr st'" by simp
      from Cons.IH [OF this] False show ?thesis by simp
    qed
  qed
qed

lemma scene_loop_stops_at_cap:
  "scene_loop vid mf n q idx scs st = Inr st' \<Longrightarrow>
   int (length (selected_frames st)) < mf \<Longrightarrow>
   mf \<le> int (length (selected_frames st')) \<Longrightarrow>
   scene_loop vid mf n q idx (scs @ later) st = Inr st'"
proof (induction scs arbitrary: st idx)
  case Nil
  then show ?case by simp
next
  case (Cons sc scs)
  show ?case
  proof (cases "py_int (double (double (scene_end sc - scene_start sc) * fps vid)) < 3")
    case True
    with Cons.prems(1) have "scene_loop vid mf n q (Suc idx) scs st = Inr st'"
      by simp
    from Cons.IH [OF this Cons.prems(2,3)] True show ?thesis by simp
  next
    case False
    with Cons.prems(1) obtain st1 where
      ps: "process_scene vid n q idx sc st = Inr st1" and
      rest: "(if int (length (selected_frames st1)) \<ge> mf then Inr st1
              else scene_loop vid mf n q (Suc idx) scs st1) = Inr st'"
      by (auto simp add: Let_def split: sum.splits)
    show ?thesis
    proof (cases "int (length (selected_frames st1)) \<ge> mf")
      case True
      with rest ps False show ?thesis by (simp add: Let_def)
    next
      case nf: False
      with rest have "scene_loop vid mf n q (Suc idx) scs st1 = Inr st'" by simp
      from Cons.IH [OF this _ Cons.prems(3)] nf
      have "scene_loop vid mf n q (Suc idx) (scs @ later) st1 = Inr st'" by simp
      with ps False nf show ?thesis by (simp add: Let_def)
    qed
  qed
qed

lemma limit_scenes_zero:
  "limit_scenes vs 0 = Inr vs' \<Longrightarrow> vs' = []"
  by (auto simp add: limit_scenes_def split: if_splits)

text \<open>
  Claim C1, as stated, bounds the number of selected frames by \<^verbatim>\<open>max_frames\<close> for
  every value of \<^verbatim>\<open>max_frames\<close>. The cap is tested after a scene has been processed,
  so with \<^verbatim>\<open>max_frames = -1\<close> the first scene still yields a selected frame.
\<close>

theorem frame_cap_negative_counterexample:
  "(case extract_smart_keyframes (two_shot_video (Inr 0) (Inr 0))
           [\<lparr>scene_start = 0, scene_end = 10\<rparr>] empty_dir (- 1) 3 (3 / 10) ''medium'' of
      Inl e \<Rightarrow> False
    | Inr r \<Rightarrow> \<not> int (length (selected r)) \<le> - 1)"
  by code_simp

text \<open>
  Claim C1, amended. For every \<^verbatim>\<open>max_frames\<close> that is not negative, a result of the
  extraction has at most \<^verbatim>\<open>max_frames\<close> selected frames. And the loop over the scenes
  stops at the cap: when it starts below the cap and ends, on some scenes, with the
  cap reached, it ends in the very same state on these scenes followed by any further
  ones, which therefore add nothing to the selected or to the rejected frames.
\<close>

theorem selected_within_frame_cap:
  "(0 \<le> mf \<and> extract_smart_keyframes vid scenes dir mf n msd q = Inr r \<longrightarrow>
      int (length (selected r)) \<le> mf) \<and>
   (scene_loop vid mf n q idx scs st = Inr st' \<and>
    int (length (selected_frames st)) < mf \<and> mf \<le> int (length (selected_frames st')) \<longrightarrow>
      scene_loop vid mf n q idx (scs @ later) st = Inr st')"
proof -
  have "int (length (selected r)) \<le> mf"
    if nonneg: "0 \<le> mf" and res: "extract_smart_keyframes vid scenes dir mf n msd q = Inr r"
  proof -
    let ?valid = "filter (\<lambda>s. double (scene_end s - scene_start s) \<ge> msd) scenes"
    let ?init = "initial_state dir initial_stats_rejected"
    from res obtain vs st1 where
      lim: "limit_scenes ?valid mf = Inr vs" and
      loop: "scene_loop vid mf n q 0 vs ?init = Inr st1" and
      r: "selected r = selected_frames st1"
      by (auto simp add: extract_smart_keyframes_def Let_def split: sum.splits)
    show ?thesis
    proof (cases "mf = 0")
      case True
      with lim have "vs = []" by (simp add: limit_scenes_zero)
      with loop r True show ?thesis by (auto simp add: initial_state_def)
    next
      case False
      with nonneg have "int (length (selected_frames ?init)) < mf"
        by (simp add: initial_state_def)
      from scene_loop_cap [OF loop this] r show ?thesis by simp
    qed
  qed
  then show ?thesis
    using scene_loop_stops_at_cap [of vid mf n q idx scs st st' later] by blast
qed

lemma capped_extraction:
  "(case extract_smart_keyframes (two_shot_video (Inr 0) (Inr 511)) two_shots empty_dir 1 3
           (3 / 10) ''medium'' of
      Inl e \<Rightarrow> False
    | Inr r \<Rightarrow> map s_scene_start (selected r) = [0] \<and>
              map r_scene_start (rejected r) = [0, 0])"
  by code_simp

lemma capped_loop:
  "(case scene_loop (two_shot_video (Inr 0) (Inr 511)) 1 3 ''medium'' 0
           [\<lparr>scene_start = 0, scene_end = 10\<rparr>]
           (initial_state empty_dir initial_stats_rejected) of
      Inl e \<Rightarrow> False
    | Inr st \<Rightarrow> length (selected_frames st) = 1)"
  by code_simp

theorem selected_within_frame_cap_witness:
  "(\<exists>r. extract_smart_keyframes (two_shot_video (Inr 0) (Inr 511)) two_shots empty_dir 1 3
          (3 / 10) ''medium'' = Inr r \<and> int (length (selected r)) \<le> 1) \<and>
   (\<exists>st'. scene_loop (two_shot_video (Inr 0) (Inr 511)) 1 3 ''medium'' 0
            [\<lparr>scene_start = 0, scene_end = 10\<rparr>]
            (initial_state empty_dir initial_stats_rejected) = Inr st' \<and>
          length (selected_frames st') = 1 \<and>
          scene_loop (two_shot_video (Inr 0) (Inr 511)) 1 3 ''medium'' 0 two_shots
            (initial_state empty_dir initial_stats_rejected) = Inr st')"
proof -
  let ?vid = "two_shot_video (Inr 0) (Inr 511)"
  let ?init = "initial_state empty_dir initial_stats_rejected"
  let ?sc = "\<lparr>scene_start = 0, scene_end = 10\<rparr>"
  from capped_extraction obtain r where
    r: "extract_smart_keyframes ?vid two_shots empty_dir 1 3 (3 / 10) ''medium'' = Inr r"
    by (auto split: sum.splits)
  from capped_loop obtain st' where
    st': "scene_loop ?vid 1 3 ''medium'' 0 [?sc] ?init = Inr st'" and
    len: "length (selected_frames st') = 1"
    by (auto split: sum.splits)
  have below: "int (length (selected_frames ?init)) < 1"
    by (simp add: initial_state_def)
  note cap = selected_within_frame_cap
      [of 1 ?vid two_shots empty_dir 3 "3 / 10" "''medium''" r
          0 "[?sc]" ?init st' "[\<lparr>scene_start = 10, scene_end = 20\<rparr>]"]
  from cap r have "int (length (selected r)) \<le> 1" by simp
  moreover from cap st' len below
  have "scene_loop ?vid 1 3 ''medium'' 0 two_shots ?init = Inr st'"
    by (simp add: two_shots_def)
  ultimately show ?thesis using r st' len by blast
qed

subsection \<open>Scenes of fewer than three frames\<close>

text \<open>
  The frame count and the duration filter on doubles, where rounding decides: the
  shot from 0.8 to 1.4 seconds at 5 frames per second has the frame count 2, the shot
  from 0.4 to 1.0 seconds has 3, and the shot from 0.9 to 1.2 seconds is shorter than
  0.3 seconds.
\<close>

lemma rounded_frame_counts:
  "py_int (double (double (double (14 / 10) - double (8 / 10)) * 5)) = 2 \<and>
   py_int (double (double (1 - double (4 / 10)) * 5)) = 3 \<and>
   \<not> double (double (12 / 10) - double (9 / 10)) \<ge> double (3 / 10)"
  by code_simp

text \<open>
  Claim C9. A scene whose frame count \<^verbatim>\<open>int((end - start) * fps)\<close>, computed on
  doubles as the source computes it, is below 3 is skipped by both variants of the
  loop: the state, with its selected frames, rejected frames, counts, seen hashes and
  files, is the one before the scene, and the loop goes on with the next scene. The
  minimum duration plays no part in it: the extraction of such a scene alone, under a
  positive frame cap, returns no selected and no rejected frame and counts nothing,
  whether or not the scene passes the duration filter.
\<close>

theorem short_scene_skipped:
  "py_int (double (double (scene_end sc - scene_start sc) * fps vid)) < 3 \<longrightarrow>
     scene_loop vid mf n q idx (sc # rest) st = scene_loop vid mf n q (Suc idx) rest st \<and>
     scene_loop_convex vid mf n q idx (sc # rest) st =
       scene_loop_convex vid mf n q (Suc idx) rest st \<and>
     (0 < mf \<longrightarrow>
        extract_smart_keyframes vid [sc] dir mf n msd q =
          Inr \<lparr>selected = [], rejected = [],
               stats = \<lparr>total_scenes =
                          (if double (scene_end sc - scene_start sc) \<ge> msd then 1 else 0),
                        rejected_by_reason = initial_stats_rejected\<rparr>,
               quality_mode_used = q\<rparr>)"
  by (simp add: extract_smart_keyframes_def limit_scenes_def initial_state_def Let_def)

theorem short_scene_skipped_witness:
  "py_int (double (double (scene_end half_second_shot - scene_start half_second_shot) *
             fps four_fps_video)) < 3 \<and>
   double (scene_end half_second_shot - scene_start half_second_shot) \<ge> double (3 / 10) \<and>
   extract_smart_keyframes four_fps_video [half_second_shot] empty_dir 50 3 (double (3 / 10))
       ''medium'' =
     Inr \<lparr>selected = [], rejected = [],
          stats = \<lparr>total_scenes = 1, rejected_by_reason = initial_stats_rejected\<rparr>,
          quality_mode_used = ''medium''\<rparr>"
proof -
  have short: "py_int (double (double (scene_end half_second_shot -
                  scene_start half_second_shot) * fps four_fps_video)) < 3"
    by code_simp
  have long: "double (scene_end half_second_shot - scene_start half_second_shot) \<ge>
                double (3 / 10)"
    by code_simp
  from short long
    short_scene_skipped [of half_second_shot four_fps_video 50 3 "''medium''" 0 "[]"
      "initial_state empty_dir initial_stats_rejected" empty_dir "double (3 / 10)"]
  show ?thesis by simp
qed

subsection \<open>The rejection counts\<close>

lemma keys_count_up: "fst ` set (count_up d k) = insert k (fst ` set d)"
  by (simp add: count_up_def dom_update)

lemma keys_incr_existing:
  assumes "incr_existing d k = Inr d'"
  shows "fst ` set d' = fst ` set d"
proof -
  from assms obtain v where v: "map_of d k = Some v" and d': "d' = AList.update k (v + 1) d"
    by (auto simp add: incr_existing_def split: option.splits)
  from v have "k \<in> fst ` set d"
    by (metis domI dom_map_of_conv_image_fst)
  with d' show ?thesis by (auto simp add: dom_update)
qed

lemma try_sample_keys:
  "fst ` set (stats_rejected (try_sample vid q idx sc t st)) \<subseteq>
   fst ` set (stats_rejected st) \<union> bad_reasons"
proof -
  have "reason \<in> bad_reasons" if "is_bad_frame fs p q = (True, reason)" for fs p reason
    using is_bad_frame_reason [of fs p q] that by (simp add: bad_reasons_def)
  then show ?thesis
    by (auto simp add: try_sample_def Let_def keys_count_up split: option.splits prod.splits)
qed

lemma samples_loop_keys:
  "fst ` set (stats_rejected (samples_loop vid q idx sc ts st)) \<subseteq>
   fst ` set (stats_rejected st) \<union> bad_reasons"
proof (induction ts arbitrary: st)
  case Nil
  then show ?case by simp
next
  case (Cons t ts)
  from Cons.IH [of "try_sample vid q idx sc t st"] try_sample_keys [of vid q idx sc t st]
  show ?case by auto
qed

lemma check_duplicate_keys:
  assumes "check_duplicate q sc st = Inr st'"
  shows "fst ` set (stats_rejected st') = fst ` set (stats_rejected st)"
proof -
  from assms consider
      (same) "stats_rejected st' = stats_rejected st"
    | (counted) d where "incr_existing (stats_rejected st) ''duplicate'' = Inr d"
        "stats_rejected st' = d"
    by (auto simp add: check_duplicate_def Let_def split: option.splits if_splits sum.splits)
  then show ?thesis
  proof cases
    case same
    then show ?thesis by simp
  next
    case counted
    then show ?thesis by (simp add: keys_incr_existing)
  qed
qed

lemma rename_rejected_stats:
  "rename_rejected rs st = Inr st' \<Longrightarrow> stats_rejected st' = stats_rejected st"
proof (induction rs arbitrary: st)
  case Nil
  then show ?case by simp
next
  case (Cons rej rs)
  show ?case
  proof (cases "files st (r_path rej) \<noteq> None")
    case True
    with Cons.prems obtain fs where
      "rename_rejected rs (st\<lparr>files := fs, rejected_frames := rejected_frames st @
          [rej\<lparr>r_path := Rejected (length (rejected_frames st)), r_selected := Some False\<rparr>]\<rparr>)
       = Inr st'"
      by (auto simp add: Let_def split: sum.splits)
    from Cons.IH [OF this] show ?thesis by simp
  next
    case False
    with Cons.prems have "rename_rejected rs st = Inr st'" by simp
    from Cons.IH [OF this] show ?thesis .
  qed
qed

lemma process_scene_keys:
  assumes "process_scene vid n q idx sc st = Inr st'"
  shows "fst ` set (stats_rejected st') \<subseteq> fst ` set (stats_rejected st) \<union> bad_reasons"
proof -
  let ?st0 = "st\<lparr>best_sharpness := 0, best_path := None, rejected_in_scene := []\<rparr>"
  let ?st1 = "samples_loop vid q idx sc (sample_points sc n) ?st0"
  from assms obtain st2 where
    cd: "check_duplicate q sc ?st1 = Inr st2" and
    rn: "rename_rejected (rejected_in_scene st2) st2 = Inr st'"
    by (auto simp add: process_scene_def Let_def split: sum.splits)
  from samples_loop_keys [of vid q idx sc "sample_points sc n" ?st0]
    check_duplicate_keys [OF cd] rename_rejected_stats [OF rn]
  show ?thesis by simp
qed

lemma scene_loop_keys:
  "scene_loop vid mf n q idx scs st = Inr st' \<Longrightarrow>
   fst ` set (stats_rejected st') \<subseteq> fst ` set (stats_rejected st) \<union> bad_reasons"
proof (induction scs arbitrary: st idx)
  case Nil
  then show ?case by auto
next
  case (Cons sc scs)
  show ?case
  proof (cases "py_int (double (double (scene_end sc - scene_start sc) * fps vid)) < 3")
    case True
    with Cons.prems have "scene_loop vid mf n q (Suc idx) scs st = Inr st'"
      by simp
    from Cons.IH [OF this] show ?thesis .
  next
    case False
    with Cons.prems obtain st1 where
      ps: "process_scene vid n q idx sc st = Inr st1" and
      rest: "(if int (length (selected_frames st1)) \<ge> mf then Inr st1
              else scene_loop vid mf n q (Suc idx) scs st1) = Inr st'"
      by (auto simp add: Let_def split: sum.splits)
    note k1 = process_scene_keys [OF ps]
    show ?thesis
    proof (cases "int (length (selected_frames st1)) \<ge> mf")
      case True
      with rest k1 show ?thesis by simp
    next
      case False
      with rest have "scene_loop vid mf n q (Suc idx) scs st1 = Inr st'" by simp
      from Cons.IH [OF this] k1 show ?thesis by blast
    qed
  qed
qed

lemma duplicate_example:
  "(case extract_smart_keyframes (two_shot_video (Inr 0) (Inr 7)) two_shots empty_dir 50 3
           (3 / 10) ''medium'' of
      Inl e \<Rightarrow> False
    | Inr r \<Rightarrow> ''not_sharpest'' \<in> set (map r_reason (rejected r)) \<and>
              sum_list (map snd (rejected_by_reason (stats r))) < length (rejected r))"
  by code_simp

text \<open>
  Claim C10. The rejection counts of a result never have an entry for
  \<^verbatim>\<open>not_sharpest\<close>, although the rejected frames may carry that reason: on the video
  of two shots under "medium" they do, and the counts add up to less than the number
  of rejected frames.
\<close>

theorem not_sharpest_never_counted:
  "(extract_smart_keyframes vid scenes dir mf n msd q = Inr r \<longrightarrow>
      ''not_sharpest'' \<notin> fst ` set (rejected_by_reason (stats r))) \<and>
   (case extract_smart_keyframes (two_shot_video (Inr 0) (Inr 7)) two_shots empty_dir 50 3
           (3 / 10) ''medium'' of
      Inl e \<Rightarrow> False
    | Inr r \<Rightarrow> ''not_sharpest'' \<in> set (map r_reason (rejected r)) \<and>
              sum_list (map snd (rejected_by_reason (stats r))) < length (rejected r))"
proof -
  have "''not_sharpest'' \<notin> fst ` set (rejected_by_reason (stats r))"
    if res: "extract_smart_keyframes vid scenes dir mf n msd q = Inr r"
  proof -
    from res obtain vs st1 where
      loop: "scene_loop vid mf n q 0 vs (initial_state dir initial_stats_rejected) = Inr st1" and
      r: "rejected_by_reason (stats r) = stats_rejected st1"
      by (auto simp add: extract_smart_keyframes_def Let_def split: sum.splits)
    have "''not_sharpest'' \<notin> fst ` set initial_stats_rejected \<union> bad_reasons"
      by (simp add: initial_stats_rejected_def bad_reasons_def)
    with scene_loop_keys [OF loop] r show ?thesis
      by (auto simp add: initial_state_def)
  qed
  with duplicate_example show ?thesis by blast
qed

theorem not_sharpest_never_counted_witness:
  "\<exists>r. extract_smart_keyframes (two_shot_video (Inr 0) (Inr 7)) two_shots empty_dir 50 3
          (3 / 10) ''medium'' = Inr r \<and>
        ''not_sharpest'' \<in> set (map r_reason (rejected r)) \<and>
        ''not_sharpest'' \<notin> fst ` set (rejected_by_reason (stats r))"
proof -
  from duplicate_example obtain r where
    r: "extract_smart_keyframes (two_shot_video (Inr 0) (Inr 7)) two_shots empty_dir 50 3
          (3 / 10) ''medium'' = Inr r" and
    ns: "''not_sharpest'' \<in> set (map r_reason (rejected r))"
    by (auto split: sum.splits)
  from not_sharpest_never_counted
      [of "two_shot_video (Inr 0) (Inr 7)" two_shots empty_dir 50 3 "3 / 10" "''medium''" r] r
  have "''not_sharpest'' \<notin> fst ` set (rejected_by_reason (stats r))" by blast
  with r ns show ?thesis by blast
qed

subsection \<open>The two variants\<close>

lemma try_sample_agree:
  assumes "variants_agree a b"
  shows "variants_agree (try_sample vid q idx sc t a) (try_sample vid q idx sc t b)"
  using assms
  by (auto simp add: variants_agree_def try_sample_def Let_def keys_count_up
        split: option.splits prod.splits)

lemma samples_loop_agree:
  "variants_agree a b \<Longrightarrow>
   variants_agree (samples_loop vid q idx sc ts a) (samples_loop vid q idx sc ts b)"
  by (induction ts arbitrary: a b) (simp_all add: try_sample_agree)

lemma check_duplicate_agree:
  assumes "variants_agree a b"
  shows "rel_sum (=) variants_agree (check_duplicate q sc a) (check_duplicate_convex q sc b)"
proof -
  from assms obtain v where v: "map_of (stats_rejected a) ''duplicate'' = Some v"
    by (auto simp add: variants_agree_def dom_map_of_conv_image_fst [symmetric])
  with assms show ?thesis
    by (auto simp add: variants_agree_def check_duplicate_def check_duplicate_convex_def
          incr_existing_def Let_def dom_update split: option.splits sum.splits)
qed

lemma rename_rejected_agree:
  "variants_agree a b \<Longrightarrow>
   rel_sum (=) variants_agree (rename_rejected rs a) (rename_rejected rs b)"
proof (induction rs arbitrary: a b)
  case Nil
  then show ?case by simp
next
  case (Cons rej rs)
  from Cons.prems have f: "files a = files b" and r: "rejected_frames a = rejected_frames b"
    by (simp_all add: variants_agree_def)
  show ?case
  proof (cases "files a (r_path rej)")
    case None
    with f Cons.IH [OF Cons.prems] show ?thesis by simp
  next
    case (Some jf)
    let ?new = "Rejected (length (rejected_frames a))"
    let ?fs = "((files a)(r_path rej := None))(?new \<mapsto> jf)"
    let ?upd = "\<lambda>s. s\<lparr>files := ?fs, rejected_frames := rejected_frames a @
                   [rej\<lparr>r_path := ?new, r_selected := Some False\<rparr>]\<rparr>"
    from Cons.prems have "variants_agree (?upd a) (?upd b)"
      by (simp add: variants_agree_def)
    from Cons.IH [OF this] Some f r show ?thesis
      by (simp add: os_rename_def Let_def)
  qed
qed

lemma process_scene_agree:
  assumes "variants_agree a b"
  shows "rel_sum (=) variants_agree (process_scene vid n q idx sc a)
           (process_scene_convex vid n q idx sc b)"
proof -
  let ?reset = "\<lambda>s. s\<lparr>best_sharpness := 0, best_path := None, rejected_in_scene := []\<rparr>"
  let ?a1 = "samples_loop vid q idx sc (sample_points sc n) (?reset a)"
  let ?b1 = "samples_loop vid q idx sc (sample_points sc n) (?reset b)"
  from assms have "variants_agree (?reset a) (?reset b)"
    by (simp add: variants_agree_def)
  then have ab1: "variants_agree ?a1 ?b1" by (rule samples_loop_agree)
  note cd = check_duplicate_agree [OF ab1, of q sc]
  show ?thesis
  proof (cases "check_duplicate q sc ?a1")
    case (Inl e)
    with cd show ?thesis
      by (cases "check_duplicate_convex q sc ?b1")
         (simp_all add: process_scene_def process_scene_convex_def Let_def)
  next
    case (Inr a2)
    with cd obtain b2 where b2: "check_duplicate_convex q sc ?b1 = Inr b2"
      and ab2: "variants_agree a2 b2"
      by (cases "check_duplicate_convex q sc ?b1") simp_all
    from ab2 have "rejected_in_scene a2 = rejected_in_scene b2"
      by (simp add: variants_agree_def)
    with rename_rejected_agree [OF ab2, of "rejected_in_scene a2"] Inr b2
    show ?thesis
      by (simp add: process_scene_def process_scene_convex_def Let_def)
  qed
qed

lemma scene_loop_agree:
  "variants_agree a b \<Longrightarrow>
   rel_sum (=) variants_agree (scene_loop vid mf n q idx scs a)
     (scene_loop_convex vid mf n q idx scs b)"
proof (induction scs arbitrary: a b idx)
  case Nil
  then show ?case by simp
next
  case (Cons sc scs)
  show ?case
  proof (cases "py_int (double (double (scene_end sc - scene_start sc) * fps vid)) < 3")
    case True
    with Cons.IH [OF Cons.prems] show ?thesis by simp
  next
    case False
    note ps = process_scene_agree [OF Cons.prems, of vid n q idx sc]
    show ?thesis
    proof (cases "process_scene vid n q idx sc a")
      case (Inl e)
      with ps False show ?thesis
        by (cases "process_scene_convex vid n q idx sc b") (simp_all add: Let_def)
    next
      case (Inr a1)
      with ps obtain b1 where b1: "process_scene_convex vid n q idx sc b = Inr b1"
        and ab1: "variants_agree a1 b1"
        by (cases "process_scene_convex vid n q idx sc b") simp_all
      from ab1 have "selected_frames a1 = selected_frames b1"
        by (simp add: variants_agree_def)
      with Cons.IH [OF ab1] Inr b1 False ab1 show ?thesis
        by (simp add: Let_def)
    qed
  qed
qed

text \<open>
  Claim C8. On the same video, scenes, frames directory and parameters the Supabase
  variant and the Convex variant of the extraction raise the same exception or return
  results with the same selected frames, the same rejected frames with their reasons,
  the same number of scenes and the same quality mode; the results differ at most in
  the rejection counts.
\<close>

theorem variants_same_frames:
  "map_sum id (\<lambda>r. (selected r, rejected r, total_scenes (stats r), quality_mode_used r))
     (extract_smart_keyframes vid scenes dir mf n msd q) =
   map_sum id (\<lambda>r. (selected r, rejected r, total_scenes (stats r), quality_mode_used r))
     (extract_smart_keyframes_convex vid scenes dir mf n msd q)"
proof -
  let ?valid = "filter (\<lambda>s. double (scene_end s - scene_start s) \<ge> msd) scenes"
  show ?thesis
  proof (cases "limit_scenes ?valid mf")
    case (Inl e)
    then show ?thesis
      by (simp add: extract_smart_keyframes_def extract_smart_keyframes_convex_def)
  next
    case (Inr vs)
    have "variants_agree (initial_state dir initial_stats_rejected) (initial_state dir [])"
      by (simp add: variants_agree_def initial_state_def initial_stats_rejected_def)
    note loop = scene_loop_agree [OF this, of vid mf n q 0 vs]
    show ?thesis
    proof (cases "scene_loop vid mf n q 0 vs (initial_state dir initial_stats_rejected)")
      case a: (Inl e)
      with loop Inr show ?thesis
        by (cases "scene_loop_convex vid mf n q 0 vs (initial_state dir [])")
           (simp_all add: extract_smart_keyframes_def extract_smart_keyframes_convex_def)
    next
      case a: (Inr a1)
      with loop obtain b1 where
        b: "scene_loop_convex vid mf n q 0 vs (initial_state dir []) = Inr b1" and
        ab: "variants_agree a1 b1"
        by (cases "scene_loop_convex vid mf n q 0 vs (initial_state dir [])") simp_all
      from ab Inr a b show ?thesis
        by (simp add: extract_smart_keyframes_def extract_smart_keyframes_convex_def
              variants_agree_def)
    qed
  qed
qed

end
